theory Spec2Isabelle
  imports Complex_Main
begin

section \<open>Scripts/phase1.py: section selector parser and document transformer\<close>

text \<open>
  The two functions of \<^verbatim>\<open>Scripts/phase1.py\<close> that carry the program's logic are
  \<^verbatim>\<open>parse_section_spec\<close> (a string such as \<^verbatim>\<open>"1,3-5,7"\<close> to a set of integers) and
  \<^verbatim>\<open>build_output_structure\<close> (the input JSON object, a seed, a theme text and an
  optional section filter to the output JSON object).

  A Python \<^verbatim>\<open>str\<close> is a \<^typ>\<open>string\<close>; a \<^typ>\<open>char\<close> stands for the code point of
  the same number, so the strings of the model are the Python strings over the code
  points 0 to 255. A Python exception is a value of \<open>error\<close>, and a function that may
  raise returns \<open>error + 'a\<close>.
\<close>

subsection \<open>Errors\<close>

text \<open>
  \<^item> \<open>InvalidSectionRange chunk\<close> is \<^verbatim>\<open>ValueError(f"Invalid section range: {chunk!r}")\<close>;
  \<^item> \<open>InvalidSectionValue chunk\<close> is \<^verbatim>\<open>ValueError(f"Invalid section value: {chunk!r}")\<close>;
  \<^item> \<open>SectionsNotList\<close> is \<^verbatim>\<open>TypeError("Input JSON 'sections' field must be a list.")\<close>;
  \<^item> \<open>UnhashableType\<close> is the \<^verbatim>\<open>TypeError("unhashable type: ...")\<close> that the
    interpreter raises when a list or a dict is looked up in a set.
\<close>

datatype error =
    InvalidSectionRange string
  | InvalidSectionValue string
  | SectionsNotList
  | UnhashableType

subsection \<open>The string methods and builtins that the parser calls\<close>

text \<open>
  \<^verbatim>\<open>str.strip()\<close> removes the characters for which \<^verbatim>\<open>str.isspace\<close> holds; below
  code point 256 these are 0x09 to 0x0D, 0x1C to 0x1F, 0x20, 0x85 and 0xA0.
\<close>

definition is_space :: "char \<Rightarrow> bool" where
  "is_space c =
     (let n = (of_char c :: nat)
      in (9 \<le> n \<and> n \<le> 13) \<or> (28 \<le> n \<and> n \<le> 32) \<or> n = 133 \<or> n = 160)"

definition strip :: "string \<Rightarrow> string" where
  "strip s = rev (dropWhile is_space (rev (dropWhile is_space s)))"

text \<open>
  \<^verbatim>\<open>s.split(sep)\<close> for a separator of one character: one piece more than there are
  separators, the empty string giving one empty piece.
\<close>

fun split_str :: "char \<Rightarrow> string \<Rightarrow> string list" where
  "split_str sep [] = [[]]"
| "split_str sep (c # cs) =
     (if c = sep then [] # split_str sep cs
      else (case split_str sep cs of
              [] \<Rightarrow> [[c]]
            | p # ps \<Rightarrow> (c # p) # ps))"

text \<open>
  \<^verbatim>\<open>s.split(sep, 1)\<close> on a string that contains the separator: the text before its
  first occurrence and the text after it.
\<close>

definition split_first :: "char \<Rightarrow> string \<Rightarrow> string \<times> string" where
  "split_first sep s = (takeWhile (\<lambda>c. c \<noteq> sep) s, drop 1 (dropWhile (\<lambda>c. c \<noteq> sep) s))"

text \<open>
  \<^verbatim>\<open>int(s)\<close> on a string, base ten: optional white space, an optional sign, decimal
  digits in which single underscores may stand between two digits, optional white space.
  The white space of \<^verbatim>\<open>int\<close> is narrower than that of \<^verbatim>\<open>strip\<close>: 0x1C to 0x1F do not
  count. More digits than \<open>int_max_str_digits\<close> (the interpreter's default limit) are
  refused with a \<^verbatim>\<open>ValueError\<close> as well. \<open>None\<close> is the \<^verbatim>\<open>ValueError\<close>.
\<close>

definition is_int_space :: "char \<Rightarrow> bool" where
  "is_int_space c =
     (let n = (of_char c :: nat)
      in (9 \<le> n \<and> n \<le> 13) \<or> n = 32 \<or> n = 133 \<or> n = 160)"

definition is_digit :: "char \<Rightarrow> bool" where
  "is_digit c = (let n = (of_char c :: nat) in 48 \<le> n \<and> n \<le> 57)"

definition digit_val :: "char \<Rightarrow> int" where
  "digit_val c = int (of_char c) - 48"

definition digits_value :: "string \<Rightarrow> int" where
  "digits_value ds = foldl (\<lambda>acc c. 10 * acc + digit_val c) 0 ds"

fun underscores_ok :: "string \<Rightarrow> bool" where
  "underscores_ok [] = False"
| "underscores_ok [c] = is_digit c"
| "underscores_ok (c # d # cs) =
     (if is_digit c then underscores_ok (d # cs)
      else is_digit d \<and> underscores_ok (d # cs))"

definition int_max_str_digits :: nat where
  "int_max_str_digits = 4300"

definition py_int :: "string \<Rightarrow> int option" where
  "py_int s =
     (let s1 = dropWhile is_int_space s;
          negative = (case s1 of [] \<Rightarrow> False | c # _ \<Rightarrow> c = CHR ''-'');
          s2 = (case s1 of [] \<Rightarrow> [] | c # r \<Rightarrow> if c = CHR ''-'' \<or> c = CHR ''+'' then r else s1);
          body = takeWhile (\<lambda>c. is_digit c \<or> c = CHR ''_'') s2;
          trail = dropWhile (\<lambda>c. is_digit c \<or> c = CHR ''_'') s2;
          ds = filter is_digit body
      in if body = [] \<or> \<not> is_digit (hd body) \<or> \<not> underscores_ok body
            \<or> \<not> list_all is_int_space trail \<or> int_max_str_digits < length ds
         then None
         else Some (if negative then - digits_value ds else digits_value ds))"

subsection \<open>parse_section_spec\<close>

text \<open>
  The body of the loop \<^verbatim>\<open>for s in range(start, end + 1): sections.add(s)\<close>, after the
  swap of a reversed pair.
\<close>

definition add_range :: "int \<Rightarrow> int \<Rightarrow> int set \<Rightarrow> int set" where
  "add_range start stop sections =
     (let lo = (if start > stop then stop else start);
          hi = (if start > stop then start else stop)
      in fold insert [lo..hi] sections)"

text \<open>
  The loop \<^verbatim>\<open>for chunk in spec.split(",")\<close> with the set \<^verbatim>\<open>sections\<close> as its state; a
  \<^verbatim>\<open>raise\<close> leaves the loop with the error.
\<close>

fun parse_chunks :: "string list \<Rightarrow> int set \<Rightarrow> error + int set" where
  "parse_chunks [] sections = Inr sections"
| "parse_chunks (raw # rest) sections =
     (let chunk = strip raw
      in if chunk = [] then parse_chunks rest sections
         else if CHR ''-'' \<in> set chunk then
           (case split_first CHR ''-'' chunk of
              (start_str, end_str) \<Rightarrow>
                (case py_int start_str of
                   None \<Rightarrow> Inl (InvalidSectionRange chunk)
                 | Some start \<Rightarrow>
                     (case py_int end_str of
                        None \<Rightarrow> Inl (InvalidSectionRange chunk)
                      | Some stop \<Rightarrow> parse_chunks rest (add_range start stop sections))))
         else
           (case py_int chunk of
              None \<Rightarrow> Inl (InvalidSectionValue chunk)
            | Some n \<Rightarrow> parse_chunks rest (insert n sections)))"

definition parse_section_spec :: "string \<Rightarrow> error + int set" where
  "parse_section_spec spec = parse_chunks (split_str CHR '','' spec) {}"

subsection \<open>JSON values\<close>

text \<open>
  What \<^verbatim>\<open>json.loads\<close> returns: \<^verbatim>\<open>None\<close>, a \<^verbatim>\<open>bool\<close>, an \<^verbatim>\<open>int\<close>, a \<^verbatim>\<open>float\<close>, a
  \<^verbatim>\<open>str\<close>, a \<^verbatim>\<open>list\<close> or a \<^verbatim>\<open>dict\<close> with string keys. A \<^verbatim>\<open>dict\<close> keeps its keys in
  insertion order, so it is an association list; the keys of a \<^verbatim>\<open>dict\<close> are distinct
  (\<open>is_dict\<close>). A finite \<^verbatim>\<open>float\<close> is given by its exact value, which is all that the
  comparison of a \<^verbatim>\<open>float\<close> with an \<^verbatim>\<open>int\<close> reads.
\<close>

datatype pyfloat = Finite rat | PosInf | NegInf | NaN

datatype json =
    JNull
  | JBool bool
  | JInt int
  | JFloat pyfloat
  | JStr string
  | JList "json list"
  | JDict "(string \<times> json) list"

type_synonym dict = "(string \<times> json) list"

definition is_dict :: "dict \<Rightarrow> bool" where
  "is_dict d = distinct (map fst d)"

text \<open>\<^verbatim>\<open>d.get(key)\<close>, with \<open>None\<close> for a missing key.\<close>

definition dict_get :: "dict \<Rightarrow> string \<Rightarrow> json option" where
  "dict_get d key = map_of d key"

text \<open>
  \<^verbatim>\<open>d[key] = value\<close>: a key that is present keeps its position and takes the new value,
  a new key goes to the end.
\<close>

fun dict_set :: "dict \<Rightarrow> string \<Rightarrow> json \<Rightarrow> dict" where
  "dict_set [] key val = [(key, val)]"
| "dict_set ((k, v) # rest) key val =
     (if k = key then (k, val) # rest else (k, v) # dict_set rest key val)"

text \<open>
  \<^verbatim>\<open>x in section_filter\<close> for a set of \<^verbatim>\<open>int\<close>: the set hashes \<^verbatim>\<open>x\<close> and compares with
  \<^verbatim>\<open>==\<close>. A list or a dict has no hash and the lookup raises \<^verbatim>\<open>TypeError\<close>, whatever
  the set holds; \<^verbatim>\<open>True\<close> and \<^verbatim>\<open>False\<close> are equal to 1 and 0, and a float is equal to
  the integer of the same value.
\<close>

fun py_in :: "json \<Rightarrow> int set \<Rightarrow> error + bool" where
  "py_in JNull S = Inr False"
| "py_in (JBool b) S = Inr ((if b then 1 else 0) \<in> S)"
| "py_in (JInt n) S = Inr (n \<in> S)"
| "py_in (JFloat (Finite q)) S = Inr (of_int \<lfloor>q\<rfloor> = q \<and> \<lfloor>q\<rfloor> \<in> S)"
| "py_in (JFloat _) S = Inr False"
| "py_in (JStr s) S = Inr False"
| "py_in (JList xs) S = Inl UnhashableType"
| "py_in (JDict d) S = Inl UnhashableType"

subsection \<open>build_output_structure\<close>

text \<open>
  The condition of the list comprehension,
  \<^verbatim>\<open>isinstance(s, dict) and s.get("section") in section_filter\<close>; \<^verbatim>\<open>s.get\<close> gives
  \<^verbatim>\<open>None\<close> for a missing key.
\<close>

fun section_selected :: "json \<Rightarrow> int set \<Rightarrow> error + bool" where
  "section_selected (JDict d) S =
     py_in (case dict_get d ''section'' of None \<Rightarrow> JNull | Some v \<Rightarrow> v) S"
| "section_selected _ S = Inr False"

text \<open>The list comprehension; the first entry whose condition raises ends it.\<close>

fun filter_sections :: "json list \<Rightarrow> int set \<Rightarrow> error + json list" where
  "filter_sections [] S = Inr []"
| "filter_sections (s # rest) S =
     (case section_selected s S of
        Inl e \<Rightarrow> Inl e
      | Inr keep \<Rightarrow>
          (case filter_sections rest S of
             Inl e \<Rightarrow> Inl e
           | Inr kept \<Rightarrow> Inr (if keep then s # kept else kept)))"

text \<open>The loop \<^verbatim>\<open>for key, value in data.items()\<close> that copies every field but "sections".\<close>

fun copy_fields :: "dict \<Rightarrow> dict \<Rightarrow> dict" where
  "copy_fields [] output = output"
| "copy_fields ((key, val) # rest) output =
     (if key = ''sections'' then copy_fields rest output
      else copy_fields rest (dict_set output key val))"

definition build_output_structure ::
  "dict \<Rightarrow> int \<Rightarrow> string \<Rightarrow> int set option \<Rightarrow> error + dict" where
  "build_output_structure data seed theme_text section_filter =
     (let output = copy_fields data [(''seed'', JInt seed), (''theme'', JStr theme_text)];
          all_sections = (case dict_get data ''sections'' of None \<Rightarrow> JList [] | Some v \<Rightarrow> v)
      in case all_sections of
           JList entries \<Rightarrow>
             (case section_filter of
                None \<Rightarrow> Inr (dict_set output ''sections'' (JList entries))
              | Some S \<Rightarrow>
                  (case filter_sections entries S of
                     Inl e \<Rightarrow> Inl e
                   | Inr filtered_sections \<Rightarrow>
                       Inr (dict_set output ''sections'' (JList filtered_sections))))
         | _ \<Rightarrow> Inl SectionsNotList)"

section \<open>The notions that the specification uses\<close>

subsection \<open>Document transformer\<close>

text \<open>
  The fields that the transformer copies: every field of the input but "sections", in
  the order of the input.
\<close>

definition copied :: "dict \<Rightarrow> dict" where
  "copied data = filter (\<lambda>kv. fst kv \<noteq> ''sections'') data"

text \<open>A value that has a hash: anything but a list or a dict.\<close>

fun hashable :: "json \<Rightarrow> bool" where
  "hashable (JList xs) = False"
| "hashable (JDict d) = False"
| "hashable _ = True"

text \<open>An entry of "sections" whose "section" field, if it is a mapping that has one, is hashable.\<close>

fun section_hashable :: "json \<Rightarrow> bool" where
  "section_hashable (JDict d) =
     (case dict_get d ''section'' of None \<Rightarrow> True | Some v \<Rightarrow> hashable v)"
| "section_hashable _ = True"

text \<open>
  A value is a member of a selector set when it is equal to one of its integers: an
  integer of the set, \<^verbatim>\<open>true\<close> or \<^verbatim>\<open>false\<close> for 1 or 0, or a float whose value is an
  integer of the set.
\<close>

fun in_selector :: "json \<Rightarrow> int set \<Rightarrow> bool" where
  "in_selector (JInt n) S = (n \<in> S)"
| "in_selector (JBool b) S = ((if b then 1 else 0) \<in> S)"
| "in_selector (JFloat (Finite q)) S = (q \<in> of_int ` S)"
| "in_selector _ S = False"

text \<open>An entry that is mapping-typed and has a "section" field whose value is a member of the set.\<close>

fun selected :: "int set \<Rightarrow> json \<Rightarrow> bool" where
  "selected S (JDict d) =
     (case dict_get d ''section'' of None \<Rightarrow> False | Some v \<Rightarrow> in_selector v S)"
| "selected S _ = False"

text \<open>\<^verbatim>\<open>del d[key]\<close> where the key is present, and no change where it is not.\<close>

definition dict_del :: "dict \<Rightarrow> string \<Rightarrow> dict" where
  "dict_del d key = filter (\<lambda>kv. fst kv \<noteq> key) d"

subsection \<open>Selector parser\<close>


text \<open>
  The set that a token denotes. A token with a dash is a pair: the texts before and after
  its first dash are read as integers, and the token denotes the inclusive range from the
  smaller to the larger. A token without a dash is read as an integer and denotes its
  singleton. \<open>None\<close> where a text is not an integer: the token is not valid.
\<close>

definition token_set :: "string \<Rightarrow> int set option" where
  "token_set t =
     (if CHR ''-'' \<in> set t then
        (case split_first CHR ''-'' t of
           (a, b) \<Rightarrow>
             (case py_int a of
                None \<Rightarrow> None
              | Some x \<Rightarrow>
                  (case py_int b of
                     None \<Rightarrow> None
                   | Some y \<Rightarrow> Some {min x y..max x y})))
      else (case py_int t of None \<Rightarrow> None | Some n \<Rightarrow> Some {n}))"



text \<open>The decimal literal of an integer, as \<^verbatim>\<open>str(n)\<close> writes it.\<close>

definition digit_char :: "nat \<Rightarrow> char" where
  "digit_char d = char_of (48 + d)"

fun nat_digits :: "nat \<Rightarrow> string" where
  "nat_digits n = (if n < 10 then [digit_char n] else nat_digits (n div 10) @ [digit_char (n mod 10)])"

definition dec_literal :: "int \<Rightarrow> string" where
  "dec_literal n = (if n < 0 then CHR ''-'' # nat_digits (nat (- n)) else nat_digits (nat n))"

declare nat_digits.simps [simp del]

section \<open>Dictionaries\<close>

lemma dict_get_dict_set:
  "dict_get (dict_set d key val) k = (if k = key then Some val else dict_get d k)"
  by (induction d key val rule: dict_set.induct) (auto simp: dict_get_def)

lemma dict_set_keys:
  "fst ` set (dict_set d key val) = insert key (fst ` set d)"
  by (induction d key val rule: dict_set.induct) auto

lemma dict_set_distinct:
  "distinct (map fst d) \<Longrightarrow> distinct (map fst (dict_set d key val))"
  by (induction d key val rule: dict_set.induct) (auto simp: dict_set_keys)

lemma dict_set_new:
  "key \<notin> fst ` set d \<Longrightarrow> dict_set d key val = d @ [(key, val)]"
  by (induction d key val rule: dict_set.induct) auto

lemma dict_set_old:
  "distinct (map fst d) \<Longrightarrow> key \<in> fst ` set d \<Longrightarrow>
   dict_set d key val = map (\<lambda>(k, v). (k, if k = key then val else v)) d"
proof (induction d key val rule: dict_set.induct)
  case (1 key val)
  then show ?case by simp
next
  case (2 k v rest key val)
  show ?case
  proof (cases "k = key")
    case True
    with 2 have "key \<notin> fst ` set rest" by auto
    then have "map (\<lambda>(k, v). (k, if k = key then val else v)) rest = rest"
      by (induction rest) auto
    with True show ?thesis by simp
  next
    case False
    with 2 show ?thesis by auto
  qed
qed

lemma dict_get_dict_del:
  "dict_get (dict_del d key) k = (if k = key then None else dict_get d k)"
  by (induction d) (auto simp: dict_get_def dict_del_def)

section \<open>The loop that copies the fields\<close>

lemma copied_Cons_sections: "copied ((''sections'', v) # rest) = copied rest"
  by (simp add: copied_def)

lemma copied_Cons_other:
  "key \<noteq> ''sections'' \<Longrightarrow> copied ((key, v) # rest) = (key, v) # copied rest"
  by (simp add: copied_def)

lemma copied_keys: "fst ` set (copied data) \<subseteq> fst ` set data"
  by (auto simp: copied_def)

lemma map_of_copied:
  "k \<noteq> ''sections'' \<Longrightarrow> map_of (copied data) k = map_of data k"
  by (induction data) (auto simp: copied_def)

text \<open>
  After the loop every key that the output had keeps its place, with the value of the
  input where the input has the key, and the other copied fields follow in the order of
  the input.
\<close>

lemma copy_fields_shape:
  "distinct (map fst data) \<Longrightarrow> distinct (map fst out) \<Longrightarrow>
   copy_fields data out =
     map (\<lambda>(k, v). (k, case map_of (copied data) k of None \<Rightarrow> v | Some v' \<Rightarrow> v')) out
     @ filter (\<lambda>kv. fst kv \<notin> fst ` set out) (copied data)"
proof (induction data out rule: copy_fields.induct)
  case (1 out)
  then show ?case by (simp add: copied_def case_prod_beta)
next
  case (2 key val rest out)
  from "2.prems" have dr: "distinct (map fst rest)" and kr: "key \<notin> fst ` set rest"
    by auto
  from kr copied_keys [of rest] have kc: "key \<notin> fst ` set (copied rest)"
    by auto
  then have mk: "map_of (copied rest) key = None"
    by (simp add: map_of_eq_None_iff)
  show ?case
  proof (cases "key = ''sections''")
    case True
    with 2 dr show ?thesis by (simp add: copied_Cons_sections)
  next
    case False
    let ?out' = "dict_set out key val"
    have d': "distinct (map fst ?out')"
      using "2.prems"(2) by (rule dict_set_distinct)
    have IH: "copy_fields rest ?out' =
        map (\<lambda>(k, v). (k, case map_of (copied rest) k of None \<Rightarrow> v | Some v' \<Rightarrow> v')) ?out'
        @ filter (\<lambda>kv. fst kv \<notin> fst ` set ?out') (copied rest)"
      using "2.IH"(2) [OF False dr d'] .
    have flt: "filter (\<lambda>kv. fst kv \<notin> fst ` set ?out') (copied rest)
             = filter (\<lambda>kv. fst kv \<notin> fst ` set out) (copied rest)"
      using kc by (intro filter_cong) (auto simp: dict_set_keys)
    show ?thesis
    proof (cases "key \<in> fst ` set out")
      case True
      have "map (\<lambda>(k, v). (k, case map_of (copied rest) k of None \<Rightarrow> v | Some v' \<Rightarrow> v')) ?out'
          = map (\<lambda>(k, v). (k, case map_of (copied ((key, val) # rest)) k of
                                  None \<Rightarrow> v | Some v' \<Rightarrow> v')) out"
        using mk False
        by (simp add: dict_set_old [OF "2.prems"(2) True] copied_Cons_other case_prod_beta)
      with IH flt True False show ?thesis
        by (simp add: copied_Cons_other)
    next
      case notin: False
      have "map (\<lambda>(k, v). (k, case map_of (copied rest) k of None \<Rightarrow> v | Some v' \<Rightarrow> v')) out
          = map (\<lambda>(k, v). (k, case map_of (copied ((key, val) # rest)) k of
                                  None \<Rightarrow> v | Some v' \<Rightarrow> v')) out"
        using notin False by (intro map_cong) (force simp: copied_Cons_other)+
      with IH flt notin False mk show ?thesis
        by (simp add: dict_set_new copied_Cons_other)
    qed
  qed
qed

lemma copy_fields_initial:
  assumes "is_dict data"
  shows "copy_fields data [(''seed'', a), (''theme'', b)] =
     (''seed'', case dict_get data ''seed'' of None \<Rightarrow> a | Some v \<Rightarrow> v)
     # (''theme'', case dict_get data ''theme'' of None \<Rightarrow> b | Some v \<Rightarrow> v)
     # filter (\<lambda>kv. fst kv \<noteq> ''seed'' \<and> fst kv \<noteq> ''theme'') (copied data)"
proof -
  have d: "distinct (map fst data)" using assms by (simp add: is_dict_def)
  have o: "distinct (map fst [(''seed'', a), (''theme'', b)])" by simp
  show ?thesis
    by (simp add: copy_fields_shape [OF d o] map_of_copied dict_get_def)
qed

section \<open>The list comprehension that filters the sections\<close>

lemma py_in_hashable: "hashable v \<Longrightarrow> py_in v S = Inr (in_selector v S)"
  by (induction v S rule: py_in.induct) auto

lemma py_in_unhashable: "\<not> hashable v \<Longrightarrow> py_in v S = Inl UnhashableType"
  by (induction v S rule: py_in.induct) auto

lemma section_selected_hashable:
  "section_hashable s \<Longrightarrow> section_selected s S = Inr (selected S s)"
  by (cases s) (auto simp: py_in_hashable split: option.splits)

lemma section_selected_unhashable:
  "\<not> section_hashable s \<Longrightarrow> section_selected s S = Inl UnhashableType"
  by (cases s) (auto simp: py_in_unhashable split: option.splits)

lemma filter_sections_hashable:
  "list_all section_hashable xs \<Longrightarrow> filter_sections xs S = Inr (filter (selected S) xs)"
  by (induction xs) (auto simp: section_selected_hashable)

lemma filter_sections_unhashable:
  "\<not> list_all section_hashable xs \<Longrightarrow> filter_sections xs S = Inl UnhashableType"
proof (induction xs)
  case Nil
  then show ?case by simp
next
  case (Cons s xs)
  show ?case
  proof (cases "section_hashable s")
    case True
    with Cons show ?thesis by (simp add: section_selected_hashable)
  next
    case False
    then show ?thesis by (simp add: section_selected_unhashable)
  qed
qed

lemma filter_sections_idem:
  "filter_sections xs S = Inr ys \<Longrightarrow> filter_sections ys S = Inr ys"
proof (induction xs arbitrary: ys)
  case Nil
  then show ?case by simp
next
  case (Cons s xs)
  then show ?case
    by (auto split: sum.splits if_splits)
qed

section \<open>build_output_structure\<close>

lemma build_Inr_cases:
  assumes "build_output_structure data seed theme_text section_filter = Inr out"
  shows "\<exists>ys. out = dict_set (copy_fields data [(''seed'', JInt seed), (''theme'', JStr theme_text)])
                     ''sections'' (JList ys)"
  using assms
  by (auto simp: build_output_structure_def Let_def split: json.splits option.splits sum.splits)

lemma build_sections_value:
  "build_output_structure data seed theme_text section_filter = Inr out \<Longrightarrow>
   \<exists>ys. dict_get out ''sections'' = Some (JList ys) \<and>
     (case section_filter of None \<Rightarrow> True | Some S \<Rightarrow> filter_sections ys S = Inr ys)"
  by (auto simp: build_output_structure_def Let_def dict_get_dict_set
      split: json.splits option.splits sum.splits dest: filter_sections_idem)

text \<open>
  Where the input is a dict with neither a "seed" nor a "theme" key, the output is the
  seed, the theme, the copied fields in the order of the input, and "sections" last.
\<close>

lemma build_fresh_keys:
  assumes "is_dict data"
    and "dict_get data ''seed'' = None" and "dict_get data ''theme'' = None"
    and "build_output_structure data seed theme_text section_filter = Inr out"
  shows "\<exists>ys. out = (''seed'', JInt seed) # (''theme'', JStr theme_text)
                 # copied data @ [(''sections'', JList ys)]"
proof -
  from build_Inr_cases [OF assms(4)] obtain ys where
    out: "out = dict_set (copy_fields data [(''seed'', JInt seed), (''theme'', JStr theme_text)])
             ''sections'' (JList ys)"
    by blast
  have k1: "''seed'' \<notin> fst ` set (copied data)"
    using assms(2) copied_keys [of data] by (auto simp: dict_get_def map_of_eq_None_iff)
  have k2: "''theme'' \<notin> fst ` set (copied data)"
    using assms(3) copied_keys [of data] by (auto simp: dict_get_def map_of_eq_None_iff)
  have f: "filter (\<lambda>kv. fst kv \<noteq> ''seed'' \<and> fst kv \<noteq> ''theme'') (copied data) = copied data"
    using k1 k2 by (force simp: filter_id_conv)
  have s: "''sections'' \<notin> fst ` set (copied data)"
    by (auto simp: copied_def)
  have "dict_set (copied data) ''sections'' (JList ys) = copied data @ [(''sections'', JList ys)]"
    using s by (rule dict_set_new)
  with out f show ?thesis
    by (simp add: copy_fields_initial [OF assms(1)] assms(2,3))
qed

section \<open>Claims about build_output_structure\<close>

text \<open>
  Claim C7. Where the "sections" value of the input is a list and no filter is given
  (the filter argument is \<^verbatim>\<open>None\<close>), the transformer returns an output whose "sections"
  value is that list: the same entries in the same order, whatever their types.
\<close>

theorem sections_unchanged_without_filter:
  assumes "dict_get data ''sections'' = Some (JList entries)"
  shows "\<exists>out. build_output_structure data seed theme_text None = Inr out
           \<and> dict_get out ''sections'' = Some (JList entries)"
  using assms by (simp add: build_output_structure_def dict_get_dict_set)

theorem sections_unchanged_without_filter_witness:
  "dict_get [(''title'', JStr ''T''), (''sections'', JList [JDict [(''section'', JInt 1)], JStr ''x'', JNull])]
      ''sections'' = Some (JList [JDict [(''section'', JInt 1)], JStr ''x'', JNull])
   \<and> (\<exists>out. build_output_structure
          [(''title'', JStr ''T''), (''sections'', JList [JDict [(''section'', JInt 1)], JStr ''x'', JNull])]
          42 ''Hi'' None = Inr out
        \<and> dict_get out ''sections'' = Some (JList [JDict [(''section'', JInt 1)], JStr ''x'', JNull]))"
proof -
  have h: "dict_get [(''title'', JStr ''T''), (''sections'', JList [JDict [(''section'', JInt 1)], JStr ''x'', JNull])]
      ''sections'' = Some (JList [JDict [(''section'', JInt 1)], JStr ''x'', JNull])"
    by (simp add: dict_get_def)
  show ?thesis
    using h sections_unchanged_without_filter [OF h, of 42 "''Hi''"] by simp
qed

text \<open>
  Claim C10. Where the input has no "sections" key, the transformer does not raise: it
  returns an output whose "sections" value is the empty list, with no filter and with
  any selector set.
\<close>

theorem missing_sections_gives_empty_list:
  assumes "dict_get data ''sections'' = None"
  shows "\<exists>out. build_output_structure data seed theme_text section_filter = Inr out
           \<and> dict_get out ''sections'' = Some (JList [])"
  using assms
  by (cases section_filter) (simp_all add: build_output_structure_def dict_get_dict_set)

theorem missing_sections_gives_empty_list_witness:
  "dict_get [(''title'', JStr ''T'')] ''sections'' = None
   \<and> (\<exists>out. build_output_structure [(''title'', JStr ''T'')] 42 ''Hi'' (Some {1, 2}) = Inr out
         \<and> dict_get out ''sections'' = Some (JList []))
   \<and> (\<exists>out. build_output_structure [(''title'', JStr ''T'')] 42 ''Hi'' None = Inr out
         \<and> dict_get out ''sections'' = Some (JList []))"
proof -
  have h: "dict_get [(''title'', JStr ''T'')] ''sections'' = None"
    by (simp add: dict_get_def)
  show ?thesis
    using h missing_sections_gives_empty_list [OF h, of 42 "''Hi''" "Some {1, 2}"]
      missing_sections_gives_empty_list [OF h, of 42 "''Hi''" None]
    by simp
qed

text \<open>
  Claim C6. The transformer raises the error for a "sections" value that is not a list
  exactly when the input has a "sections" key and its value is not a list; the result is
  then the error alone, and no output document is returned.
\<close>

theorem shape_error_iff_sections_not_list:
  "(build_output_structure data seed theme_text section_filter = Inl SectionsNotList)
     = (\<exists>v. dict_get data ''sections'' = Some v \<and> (\<forall>entries. v \<noteq> JList entries))
   \<and> (build_output_structure data seed theme_text section_filter = Inl SectionsNotList
        \<longrightarrow> (\<forall>out. build_output_structure data seed theme_text section_filter \<noteq> Inr out))"
proof (cases "dict_get data ''sections''")
  case None
  then show ?thesis
    by (cases section_filter) (simp_all add: build_output_structure_def)
next
  case (Some v)
  have fs: "filter_sections xs S \<noteq> Inl SectionsNotList" for xs S
    by (cases "list_all section_hashable xs")
       (simp_all add: filter_sections_hashable filter_sections_unhashable)
  from Some fs show ?thesis
    by (cases v; cases section_filter)
       (auto simp: build_output_structure_def split: sum.splits)
qed

theorem shape_error_iff_sections_not_list_witness:
  "build_output_structure [(''title'', JStr ''T''), (''sections'', JStr ''abc'')] 42 ''Hi'' (Some {1})
     = Inl SectionsNotList
   \<and> build_output_structure [(''title'', JStr ''T''), (''sections'', JList [])] 42 ''Hi'' (Some {1})
     \<noteq> Inl SectionsNotList"
  using shape_error_iff_sections_not_list
          [of "[(''title'', JStr ''T''), (''sections'', JStr ''abc'')]" 42 "''Hi''" "Some {1}"]
        shape_error_iff_sections_not_list
          [of "[(''title'', JStr ''T''), (''sections'', JList [])]" 42 "''Hi''" "Some {1}"]
  by (simp add: dict_get_def)

text \<open>
  Claim C1, as amended. Where the "sections" value of the input is a list in which no
  mapping entry has a list or a mapping as its "section" value, and a selector set is
  given, the transformer returns an output whose "sections" value holds, in the order of
  the input, exactly the entries that are mappings with a "section" field whose value is
  a member of the selector set; every other entry is dropped and nothing is raised.
\<close>

theorem filter_keeps_selected_sections:
  assumes "dict_get data ''sections'' = Some (JList entries)"
    and "list_all section_hashable entries"
  shows "\<exists>out. build_output_structure data seed theme_text (Some S) = Inr out
           \<and> dict_get out ''sections'' = Some (JList (filter (selected S) entries))"
  using assms
  by (simp add: build_output_structure_def dict_get_dict_set filter_sections_hashable)

theorem filter_keeps_selected_sections_witness:
  "build_output_structure
     [(''sections'', JList [JDict [(''section'', JInt 1), (''x'', JStr ''a'')],
                            JDict [(''section'', JInt 2), (''x'', JStr ''b'')],
                            JDict [(''y'', JStr ''z'')],
                            JStr ''s'',
                            JDict [(''section'', JInt 0)]])]
     42 ''Hi'' (Some {2})
   = Inr [(''seed'', JInt 42), (''theme'', JStr ''Hi''),
          (''sections'', JList [JDict [(''section'', JInt 2), (''x'', JStr ''b'')]])]"
proof -
  let ?entries = "[JDict [(''section'', JInt 1), (''x'', JStr ''a'')],
                   JDict [(''section'', JInt 2), (''x'', JStr ''b'')],
                   JDict [(''y'', JStr ''z'')],
                   JStr ''s'',
                   JDict [(''section'', JInt 0)]]"
  have h1: "dict_get [(''sections'', JList ?entries)] ''sections'' = Some (JList ?entries)"
    by (simp add: dict_get_def)
  have h2: "list_all section_hashable ?entries"
    by (simp add: dict_get_def)
  from filter_keeps_selected_sections [OF h1 h2, of 42 "''Hi''" "{2}"]
  obtain out where
    r: "build_output_structure [(''sections'', JList ?entries)] 42 ''Hi'' (Some {2}) = Inr out"
    and "dict_get out ''sections'' = Some (JList (filter (selected {2}) ?entries))"
    by blast
  then have s: "dict_get out ''sections''
      = Some (JList [JDict [(''section'', JInt 2), (''x'', JStr ''b'')]])"
    by (simp add: dict_get_def)
  have "is_dict [(''sections'', JList ?entries)]"
    by (simp add: is_dict_def)
  from build_fresh_keys [OF this _ _ r] obtain ys where
    "out = [(''seed'', JInt 42), (''theme'', JStr ''Hi''), (''sections'', JList ys)]"
    by (auto simp: dict_get_def copied_def)
  with s r show ?thesis
    by (simp add: dict_get_def)
qed

theorem filter_raises_on_unhashable_section:
  "build_output_structure [(''sections'', JList [JDict [(''section'', JList [])]])]
     42 ''Hi'' (Some {1}) = Inl UnhashableType"
  by (simp add: build_output_structure_def dict_get_def)

text \<open>
  Claim C8. Where the transformer returns an output, removing "seed" and "theme" from
  that output and transforming the result again with the same filter returns an output
  with the same "sections" value.
\<close>

theorem filter_idempotent:
  assumes "build_output_structure data seed theme_text section_filter = Inr out"
  shows "\<exists>out'. build_output_structure (dict_del (dict_del out ''seed'') ''theme'')
                    seed' theme_text' section_filter = Inr out'
           \<and> dict_get out' ''sections'' = dict_get out ''sections''"
proof -
  from build_sections_value [OF assms] obtain ys where
    ys: "dict_get out ''sections'' = Some (JList ys)" and
    idem: "case section_filter of None \<Rightarrow> True | Some S \<Rightarrow> filter_sections ys S = Inr ys"
    by blast
  have "dict_get (dict_del (dict_del out ''seed'') ''theme'') ''sections'' = Some (JList ys)"
    using ys by (simp add: dict_get_dict_del)
  with ys idem show ?thesis
    by (cases section_filter) (simp_all add: build_output_structure_def dict_get_dict_set)
qed

theorem filter_idempotent_witness:
  "build_output_structure
     [(''title'', JStr ''T''),
      (''sections'', JList [JDict [(''section'', JInt 1)], JDict [(''section'', JInt 2)], JNull])]
     42 ''Hi'' (Some {2})
   = Inr [(''seed'', JInt 42), (''theme'', JStr ''Hi''), (''title'', JStr ''T''),
          (''sections'', JList [JDict [(''section'', JInt 2)]])]
   \<and> (\<exists>out'. build_output_structure
          [(''title'', JStr ''T''), (''sections'', JList [JDict [(''section'', JInt 2)]])]
          42 ''Hi'' (Some {2}) = Inr out'
        \<and> dict_get out' ''sections'' = Some (JList [JDict [(''section'', JInt 2)]]))"
proof -
  have h: "build_output_structure
     [(''title'', JStr ''T''),
      (''sections'', JList [JDict [(''section'', JInt 1)], JDict [(''section'', JInt 2)], JNull])]
     42 ''Hi'' (Some {2})
   = Inr [(''seed'', JInt 42), (''theme'', JStr ''Hi''), (''title'', JStr ''T''),
          (''sections'', JList [JDict [(''section'', JInt 2)]])]"
    by (simp add: build_output_structure_def dict_get_def)
  show ?thesis
    using h filter_idempotent [OF h, of 42 "''Hi''"]
    by (simp add: dict_del_def dict_get_def)
qed

text \<open>
  Claim C9. Where the input is a dict and the transformer returns an output, the first
  key of the output is "seed" and the second is "theme"; the value of "seed" is the
  value that the input has for "seed" where it has that key (and the seed argument
  otherwise), and likewise for "theme".
\<close>

theorem input_seed_and_theme_overwrite:
  assumes "is_dict data"
    and "build_output_structure data seed theme_text section_filter = Inr out"
  shows "\<exists>rest. out =
           (''seed'', case dict_get data ''seed'' of None \<Rightarrow> JInt seed | Some v \<Rightarrow> v)
         # (''theme'', case dict_get data ''theme'' of None \<Rightarrow> JStr theme_text | Some v \<Rightarrow> v)
         # rest"
proof -
  from build_Inr_cases [OF assms(2)] obtain ys where
    "out = dict_set (copy_fields data [(''seed'', JInt seed), (''theme'', JStr theme_text)])
             ''sections'' (JList ys)"
    by blast
  then show ?thesis
    by (simp add: copy_fields_initial [OF assms(1)])
qed

theorem input_seed_and_theme_overwrite_witness:
  "is_dict [(''title'', JStr ''T''), (''theme'', JStr ''old''), (''seed'', JInt 7)]
   \<and> build_output_structure [(''title'', JStr ''T''), (''theme'', JStr ''old''), (''seed'', JInt 7)]
        42 ''Hi'' None
     = Inr [(''seed'', JInt 7), (''theme'', JStr ''old''), (''title'', JStr ''T''),
            (''sections'', JList [])]"
proof -
  have h1: "is_dict [(''title'', JStr ''T''), (''theme'', JStr ''old''), (''seed'', JInt 7)]"
    by (simp add: is_dict_def)
  have h2: "build_output_structure [(''title'', JStr ''T''), (''theme'', JStr ''old''), (''seed'', JInt 7)]
        42 ''Hi'' None
     = Inr [(''seed'', JInt 7), (''theme'', JStr ''old''), (''title'', JStr ''T''),
            (''sections'', JList [])]"
    by (simp add: build_output_structure_def dict_get_def)
  show ?thesis
    using h1 h2 input_seed_and_theme_overwrite [OF h1 h2] by simp
qed

text \<open>
  Claim C4. The transformer on the input \<^verbatim>\<open>{"seed": 7, "title": "T", "sections": []}\<close>
  with the seed 42 and the theme "Hi": the "seed" key of the output holds the 7 of the
  input, not the seed 42 that was supplied.
\<close>

theorem supplied_seed_lost_on_key_collision:
  "build_output_structure [(''seed'', JInt 7), (''title'', JStr ''T''), (''sections'', JList [])]
     42 ''Hi'' None
   = Inr [(''seed'', JInt 7), (''theme'', JStr ''Hi''), (''title'', JStr ''T''),
          (''sections'', JList [])]"
  by (simp add: build_output_structure_def dict_get_def)

section \<open>The loop of parse_section_spec\<close>





lemma token_set_None_iff:
  "token_set t = None \<longleftrightarrow>
     (if CHR ''-'' \<in> set t
      then py_int (fst (split_first CHR ''-'' t)) = None \<or> py_int (snd (split_first CHR ''-'' t)) = None
      else py_int t = None)"
  by (auto simp: token_set_def split: prod.splits option.splits)

section \<open>Decimal literals\<close>

lemma is_digit_digit_char: "d < 10 \<Longrightarrow> is_digit (digit_char d)"
  by (simp add: is_digit_def digit_char_def)

lemma nat_digits_digits: "c \<in> set (nat_digits n) \<Longrightarrow> is_digit c"
proof (induction n rule: nat_digits.induct)
  case (1 n)
  show ?case
  proof (cases "n < 10")
    case True
    with "1.prems" show ?thesis
      by (simp add: nat_digits.simps [of n] is_digit_digit_char)
  next
    case False
    with "1.prems" "1.IH" show ?thesis
      by (auto simp: nat_digits.simps [of n] is_digit_digit_char)
  qed
qed

lemma nat_digits_nonempty: "nat_digits n \<noteq> []"
  by (subst nat_digits.simps) simp

lemma is_digit_not_space: "is_digit c \<Longrightarrow> \<not> is_space c"
  by (auto simp: is_digit_def is_space_def Let_def)

lemma is_digit_not_comma: "is_digit c \<Longrightarrow> c \<noteq> CHR '',''"
  by (auto simp: is_digit_def)

lemma split_str_no_sep: "sep \<notin> set s \<Longrightarrow> split_str sep s = [s]"
  by (induction s) auto

lemma strip_id:
  assumes "s \<noteq> []" and "\<not> is_space (hd s)" and "\<not> is_space (last s)"
  shows "strip s = s"
proof -
  from assms(1,2) have "dropWhile is_space s = s"
    by (cases s) auto
  moreover from assms(1,3) have "dropWhile is_space (rev s) = rev s"
    by (cases "rev s") (auto simp: hd_rev [symmetric])
  ultimately show ?thesis
    by (simp add: strip_def)
qed

lemma py_int_empty: "py_int [] = None"
  by (simp add: py_int_def)

lemma negative_literal_rejected:
  assumes "\<forall>c\<in>set ds. is_digit c" and "ds \<noteq> []"
  shows "parse_section_spec (CHR ''-'' # ds) = Inl (InvalidSectionRange (CHR ''-'' # ds))"
proof -
  let ?lit = "CHR ''-'' # ds"
  have nc: "CHR '','' \<notin> set ?lit"
    using assms(1) is_digit_not_comma by auto
  have "is_digit (last ds)"
    using assms by simp
  then have "\<not> is_space (last ?lit)"
    using assms(2) by (simp add: is_digit_not_space)
  moreover have "\<not> is_space (hd ?lit)"
    by (simp add: is_space_def)
  ultimately have st: "strip ?lit = ?lit"
    by (intro strip_id) simp_all
  have sf: "split_first CHR ''-'' ?lit = ([], ds)"
    by (simp add: split_first_def)
  show ?thesis
    by (simp add: parse_section_spec_def split_str_no_sep [OF nc] st sf py_int_empty
        del: split_str.simps)
qed

section \<open>Claims about parse_section_spec\<close>





text \<open>
  Claim C3, as amended. For every negative integer, the spec that is its decimal
  literal is rejected: the token has a dash, the text before its first dash is empty, and
  the parser raises "Invalid section range" with the token.
\<close>

theorem parse_negative_literal_raises:
  assumes "n < 0"
  shows "parse_section_spec (dec_literal n) = Inl (InvalidSectionRange (dec_literal n))"
proof -
  from assms have "dec_literal n = CHR ''-'' # nat_digits (nat (- n))"
    by (simp add: dec_literal_def)
  moreover have "\<forall>c\<in>set (nat_digits (nat (- n))). is_digit c"
    by (simp add: nat_digits_digits)
  ultimately show ?thesis
    by (simp add: negative_literal_rejected nat_digits_nonempty)
qed

theorem parse_negative_literal_raises_witness:
  "(- 5 :: int) < 0 \<and> dec_literal (- 5) = ''-5''
   \<and> parse_section_spec ''-5'' = Inl (InvalidSectionRange ''-5'')"
proof -
  have h: "(- 5 :: int) < 0" by simp
  have d: "dec_literal (- 5) = ''-5''"
    by (simp add: dec_literal_def nat_digits.simps digit_char_def char_of_def bit_nat_def)
  from parse_negative_literal_raises [OF h] h d show ?thesis
    by simp
qed

theorem parse_minus_five_not_singleton:
  "parse_section_spec ''-5'' \<noteq> Inr {- 5}"
  by (simp add: parse_section_spec_def strip_def is_space_def split_first_def py_int_def)

end
